theory Spec2Isabelle
  imports Main
begin

section \<open>The shell process and the operating system it calls\<close>

text \<open>
  The state of the shell process that \<^verbatim>\<open>main.c\<close> reads and writes: the working
  directory changed by \<^verbatim>\<open>chdir\<close>, the unread part of standard input consumed by
  \<^verbatim>\<open>getchar\<close>, and everything written so far to standard output and standard error.
\<close>

record world =
  cwd :: string
  stdin :: string
  stdout :: string
  stderr :: string

text \<open>
  The status that a successful \<^verbatim>\<open>waitpid(pid, &status, WUNTRACED)\<close> stores: with
  \<^verbatim>\<open>WUNTRACED\<close> (and without \<^verbatim>\<open>WCONTINUED\<close>) the call reports a child that exited,
  was killed by a signal, or was stopped by a signal.
\<close>

datatype wstatus = WExited nat | WSignaled nat | WStopped nat

text \<open>
  The content of the variable \<^verbatim>\<open>int status\<close> of \<^verbatim>\<open>csh_launch\<close>, as the macros of
  \<^verbatim>\<open><sys/wait.h>\<close> read it: the encoding of a status, or \<open>NoStatus\<close>, an \<^verbatim>\<open>int\<close> of
  which none of \<^verbatim>\<open>WIFEXITED\<close>, \<^verbatim>\<open>WIFSIGNALED\<close> and \<^verbatim>\<open>WIFSTOPPED\<close> holds. The
  variable is declared without an initialiser, so what it holds before the first store
  is indeterminate: any of these.
\<close>

datatype status_int = Status wstatus | NoStatus

fun WIFEXITED :: "status_int \<Rightarrow> bool" where
  "WIFEXITED (Status (WExited c)) = True"
| "WIFEXITED (Status (WSignaled s)) = False"
| "WIFEXITED (Status (WStopped s)) = False"
| "WIFEXITED NoStatus = False"

fun WIFSIGNALED :: "status_int \<Rightarrow> bool" where
  "WIFSIGNALED (Status (WExited c)) = False"
| "WIFSIGNALED (Status (WSignaled s)) = True"
| "WIFSIGNALED (Status (WStopped s)) = False"
| "WIFSIGNALED NoStatus = False"

text \<open>
  What a call of \<^verbatim>\<open>waitpid\<close> that returns has done: it has stored a status and
  returned the child's process id, or it has failed, returning \<open>-1\<close> and storing
  nothing (\<^verbatim>\<open>ECHILD\<close> when \<^verbatim>\<open>SIGCHLD\<close> is ignored, \<^verbatim>\<open>EINTR\<close>).
\<close>

datatype wait_result = Stored wstatus | Failed

text \<open>
  What the operating system and the C library decide, as parameters of the model:
  \<^item> \<open>alloc_ok n\<close>: whether \<^verbatim>\<open>malloc\<close>/\<^verbatim>\<open>realloc\<close> grants a block of \<open>n\<close> bytes;
  \<^item> \<open>chdir_sys d p\<close>: \<^verbatim>\<open>chdir(p)\<close> called in directory \<open>d\<close>: \<open>Inl m\<close> when it
    returns nonzero, \<open>m\<close> being the text of \<^verbatim>\<open>strerror(errno)\<close>, and \<open>Inr d'\<close> when it
    succeeds and \<open>d'\<close> is the new working directory (a failed \<^verbatim>\<open>chdir\<close> changes nothing);
  \<^item> \<open>fork_pid\<close>, \<open>fork_err\<close>: the value \<^verbatim>\<open>fork()\<close> returns in the process modelled,
    and the text of \<^verbatim>\<open>strerror(errno)\<close> when that value is negative;
  \<^item> \<open>execvp_sys f a\<close>: \<open>None\<close> when \<^verbatim>\<open>execvp(f, a)\<close> replaces the process image (it
    does not return), \<open>Some m\<close> when it returns \<open>-1\<close>, with \<open>m\<close> the error text;
  \<^item> \<open>waitpid_sys k\<close>: what the \<open>k\<close>-th call of \<^verbatim>\<open>waitpid\<close> on the child (counted
    from 0) does, \<open>None\<close> when that call never returns because the child neither
    terminates nor stops any more;
  \<^item> \<open>status_init\<close>: the indeterminate content of the uninitialised \<^verbatim>\<open>int status\<close>.
\<close>

record os =
  alloc_ok :: "nat \<Rightarrow> bool"
  chdir_sys :: "string \<Rightarrow> string \<Rightarrow> string + string"
  fork_pid :: int
  fork_err :: string
  execvp_sys :: "string option \<Rightarrow> string option list \<Rightarrow> string option"
  waitpid_sys :: "nat \<Rightarrow> wait_result option"
  status_init :: status_int

text \<open>
  How a call of one of the shell's functions ends: it returns a value, it ends the
  process through \<^verbatim>\<open>exit\<close>, it replaces the process image through \<^verbatim>\<open>execvp\<close>, it
  never returns (\<open>Blocks\<close>), or it has no defined behaviour in C (\<open>Undef\<close>: a read
  past the end of the argument array, signed overflow of an \<^verbatim>\<open>int\<close>).
\<close>

datatype 'a outcome =
    Returns 'a world
  | Exits int world
  | Execs "string option list" world
  | Blocks
  | Undef

definition EXIT_SUCCESS :: int where
  "EXIT_SUCCESS = 0"

definition EXIT_FAILURE :: int where
  "EXIT_FAILURE = 1"

definition INT_MAX :: int where
  "INT_MAX = 2147483647"

definition NL :: char where
  "NL = CHR 0x0A"

definition printf :: "string \<Rightarrow> world \<Rightarrow> world" where
  "printf s w = w\<lparr>stdout := stdout w @ s\<rparr>"

definition fprintf_stderr :: "string \<Rightarrow> world \<Rightarrow> world" where
  "fprintf_stderr s w = w\<lparr>stderr := stderr w @ s\<rparr>"

text \<open>\<^verbatim>\<open>perror(s)\<close> with \<open>m\<close> the text of \<^verbatim>\<open>strerror(errno)\<close>.\<close>

definition perror :: "string \<Rightarrow> string \<Rightarrow> world \<Rightarrow> world" where
  "perror s m w = fprintf_stderr (s @ '': '' @ m @ [NL]) w"

text \<open>
  \<^verbatim>\<open>strcmp\<close> of the C library: zero exactly for equal strings, otherwise the sign of
  the first differing byte (a proper prefix being smaller).
\<close>

fun strcmp :: "string \<Rightarrow> string \<Rightarrow> int" where
  "strcmp [] [] = 0"
| "strcmp [] (b # bs) = - 1"
| "strcmp (a # as) [] = 1"
| "strcmp (a # as) (b # bs) =
     (if a = b then strcmp as bs
      else if (of_char a :: nat) < of_char b then - 1 else 1)"

section \<open>The builtin commands\<close>

definition builtin_str :: "string list" where
  "builtin_str = [''cd'', ''help'', ''exit'']"

definition csh_num_builtins :: nat where
  "csh_num_builtins = length builtin_str"

text \<open>
  \<^verbatim>\<open>csh_cd\<close>. An argument vector is the array \<^verbatim>\<open>char **args\<close>: a list whose entries
  are strings or the null pointer \<open>None\<close>. Reading \<^verbatim>\<open>args[1]\<close> of an array with fewer
  than two entries is a read past its end.
\<close>

definition csh_cd :: "os \<Rightarrow> string option list \<Rightarrow> world \<Rightarrow> int outcome" where
  "csh_cd os args w =
     (if length args \<le> 1 then Undef
      else case args ! 1 of
        None \<Rightarrow> Returns 1 (fprintf_stderr (''lsh: cd: missing argument'' @ [NL]) w)
      | Some dir \<Rightarrow>
          (case chdir_sys os (cwd w) dir of
             Inl m \<Rightarrow> Returns 1 (perror ''lsh'' m w)
           | Inr d \<Rightarrow> Returns 1 (w\<lparr>cwd := d\<rparr>)))"

text \<open>The \<^verbatim>\<open>for\<close> loop of \<^verbatim>\<open>csh_help\<close>, from index \<open>i\<close> on.\<close>

function csh_help_loop :: "nat \<Rightarrow> world \<Rightarrow> world" where
  "csh_help_loop i w =
     (if i < csh_num_builtins
      then csh_help_loop (Suc i) (printf (''  '' @ builtin_str ! i @ [NL]) w)
      else w)"
  by pat_completeness auto
termination
  by (relation "measure (\<lambda>(i, w). csh_num_builtins - i)") auto

definition csh_help :: "os \<Rightarrow> string option list \<Rightarrow> world \<Rightarrow> int outcome" where
  "csh_help os args w =
     (let w1 = printf (''Ishan Leung'' @ [CHR 0x27] @ ''s C Shell'' @ [NL]) w;
          w2 = printf (''Type program names and arguments, and press the enter key.'' @ [NL]) w1;
          w3 = printf (''The following are built-in commands:'' @ [NL]) w2;
          w4 = csh_help_loop 0 w3;
          w5 = printf (''Use the man command for info on other programs. '' @ [NL]) w4
      in Returns 1 w5)"

definition csh_exit :: "os \<Rightarrow> string option list \<Rightarrow> world \<Rightarrow> int outcome" where
  "csh_exit os args w = Returns 0 w"

definition builtin_func :: "(os \<Rightarrow> string option list \<Rightarrow> world \<Rightarrow> int outcome) list" where
  "builtin_func = [csh_cd, csh_help, csh_exit]"

section \<open>Launching a program\<close>

text \<open>
  The effect of \<^verbatim>\<open>waitpid(pid, &status, WUNTRACED)\<close> on the variable \<^verbatim>\<open>status\<close>:
  a failed call leaves it as it was.
\<close>

definition waitpid_store :: "wait_result \<Rightarrow> status_int \<Rightarrow> status_int" where
  "waitpid_store r status = (case r of Stored s \<Rightarrow> Status s | Failed \<Rightarrow> status)"

text \<open>
  The \<^verbatim>\<open>do ... while\<close> loop of \<^verbatim>\<open>csh_launch\<close>, entered at the \<open>n\<close>-th call of
  \<^verbatim>\<open>waitpid\<close> with \<open>status\<close> the content of the variable. The value that
  \<^verbatim>\<open>waitpid\<close> returns is not looked at; the condition tests the variable after every
  call. The loop may run for ever; not returning is the value \<open>None\<close>.
\<close>

partial_function (option) csh_wait_loop ::
  "(nat \<Rightarrow> wait_result option) \<Rightarrow> status_int \<Rightarrow> nat \<Rightarrow> status_int option" where
  "csh_wait_loop waitpid status n =
     (case waitpid n of
        None \<Rightarrow> None
      | Some r \<Rightarrow>
          if \<not> WIFEXITED (waitpid_store r status) \<and> \<not> WIFSIGNALED (waitpid_store r status)
          then csh_wait_loop waitpid (waitpid_store r status) (Suc n)
          else Some (waitpid_store r status))"

declare csh_wait_loop.simps [code]

definition csh_launch :: "os \<Rightarrow> string option list \<Rightarrow> world \<Rightarrow> int outcome" where
  "csh_launch os args w =
     (let pid = fork_pid os in
      if pid = 0 then
        (if args = [] then Undef
         else case execvp_sys os (args ! 0) args of
           None \<Rightarrow> Execs args w
         | Some m \<Rightarrow> Exits EXIT_FAILURE (perror ''lsh'' m w))
      else if pid < 0 then Returns 1 (perror ''lsh'' (fork_err os) w)
      else
        (case csh_wait_loop (waitpid_sys os) (status_init os) 0 of
           None \<Rightarrow> Blocks
         | Some status \<Rightarrow> Returns 1 w))"

section \<open>Dispatch\<close>

text \<open>The \<^verbatim>\<open>for\<close> loop of \<^verbatim>\<open>csh_execute\<close>, from index \<open>i\<close> on, and the call after it.\<close>

function csh_execute_loop ::
  "nat \<Rightarrow> os \<Rightarrow> string \<Rightarrow> string option list \<Rightarrow> world \<Rightarrow> int outcome" where
  "csh_execute_loop i os a0 args w =
     (if i < csh_num_builtins
      then (if strcmp a0 (builtin_str ! i) = 0
            then (builtin_func ! i) os args w
            else csh_execute_loop (Suc i) os a0 args w)
      else csh_launch os args w)"
  by pat_completeness auto
termination
  by (relation "measure (\<lambda>(i, os, a0, args, w). csh_num_builtins - i)") auto

definition csh_execute :: "os \<Rightarrow> string option list \<Rightarrow> world \<Rightarrow> int outcome" where
  "csh_execute os args w =
     (if args = [] then Undef
      else case args ! 0 of
        None \<Rightarrow> Returns 1 w
      | Some a0 \<Rightarrow> csh_execute_loop 0 os a0 args w)"


section \<open>Reading a line\<close>

definition CSH_RL_BUFSIZE :: int where
  "CSH_RL_BUFSIZE = 1024"

text \<open>
  The contents of a \<^verbatim>\<open>char *\<close> as a C string: the bytes before the first null byte.
\<close>

definition cstring :: "string \<Rightarrow> string" where
  "cstring buf = takeWhile (\<lambda>c. c \<noteq> CHR 0x00) buf"

text \<open>
  The \<^verbatim>\<open>while(1)\<close> loop of \<^verbatim>\<open>csh_read_line\<close> (the branch compiled when
  \<^verbatim>\<open>CSH_USE_STD_GETLINE\<close> is not defined, which \<^verbatim>\<open>main.c\<close> never defines).
  \<^verbatim>\<open>getchar()\<close> takes the next byte of standard input and gives \<^verbatim>\<open>EOF\<close> when none
  is left. \<open>buffer\<close> holds the bytes stored so far, so that \<open>position\<close> is its length
  and \<^verbatim>\<open>buffer[position] = c\<close> appends. \<^verbatim>\<open>bufsize += CSH_RL_BUFSIZE\<close> on an
  \<^verbatim>\<open>int\<close> is undefined beyond \<^verbatim>\<open>INT_MAX\<close>.
\<close>

function csh_read_line_loop :: "os \<Rightarrow> string \<Rightarrow> int \<Rightarrow> int \<Rightarrow> world \<Rightarrow> string outcome" where
  "csh_read_line_loop os buffer position bufsize w =
     (case stdin w of
        [] \<Rightarrow> Exits EXIT_SUCCESS w
      | c # rest \<Rightarrow>
          (let w1 = w\<lparr>stdin := rest\<rparr> in
           if c = NL then Returns (cstring buffer) w1
           else
             (let buffer1 = buffer @ [c];
                  position1 = position + 1
              in if position1 \<ge> bufsize then
                   (if INT_MAX < bufsize + CSH_RL_BUFSIZE then Undef
                    else if alloc_ok os (nat (bufsize + CSH_RL_BUFSIZE))
                    then csh_read_line_loop os buffer1 position1 (bufsize + CSH_RL_BUFSIZE) w1
                    else Exits EXIT_FAILURE
                           (fprintf_stderr (''lsh: allocation error'' @ [NL]) w1))
                 else csh_read_line_loop os buffer1 position1 bufsize w1)))"
  by pat_completeness auto
termination
  by (relation "measure (\<lambda>(os, buffer, position, bufsize, w). length (stdin w))") auto

definition csh_read_line :: "os \<Rightarrow> world \<Rightarrow> string outcome" where
  "csh_read_line os w =
     (let bufsize = CSH_RL_BUFSIZE; position = 0 in
      if \<not> alloc_ok os (nat bufsize)
      then Exits EXIT_FAILURE (fprintf_stderr (''lsh: allocation error'' @ [NL]) w)
      else csh_read_line_loop os [] position bufsize w)"

text \<open>
  The other branch of \<^verbatim>\<open>csh_read_line\<close>, compiled only under
  \<^verbatim>\<open>CSH_USE_STD_GETLINE\<close>. \<^verbatim>\<open>getline\<close> of the C library (POSIX) reads up to and
  including the next newline, or up to the end of the stream; it returns \<open>-1\<close> only when
  the stream ends before any byte was read (\<open>Inl None\<close>, with \<^verbatim>\<open>feof\<close> set) or on an
  error (\<open>Inl (Some m)\<close>, here a failed allocation of the line's buffer), and
  otherwise gives the line read and leaves the rest of the input.
\<close>

definition getline :: "os \<Rightarrow> string \<Rightarrow> string option + string \<times> string" where
  "getline os inp =
     (if inp = [] then Inl None
      else
        (let body = takeWhile (\<lambda>c. c \<noteq> NL) inp;
             rest = dropWhile (\<lambda>c. c \<noteq> NL) inp;
             line = (if rest = [] then body else body @ [NL])
         in if alloc_ok os (length line + 1) then Inr (line, drop 1 rest)
            else Inl (Some ''Cannot allocate memory'')))"

definition csh_read_line_getline :: "os \<Rightarrow> world \<Rightarrow> string outcome" where
  "csh_read_line_getline os w =
     (case getline os (stdin w) of
        Inl None \<Rightarrow> Exits EXIT_SUCCESS w
      | Inl (Some m) \<Rightarrow> Exits EXIT_FAILURE (perror ''lsh: getline'' m w)
      | Inr (line, rest) \<Rightarrow> Returns (cstring line) (w\<lparr>stdin := rest\<rparr>))"

section \<open>Splitting a line into tokens\<close>

definition CSH_TOK_BUFSIZE :: int where
  "CSH_TOK_BUFSIZE = 64"

text \<open>\<^verbatim>\<open>" \t\r\n\a"\<close>: space, tab, carriage return, newline, bell.\<close>

definition CSH_TOK_DELIM :: string where
  "CSH_TOK_DELIM = [CHR '' '', CHR 0x09, CHR 0x0D, CHR 0x0A, CHR 0x07]"

text \<open>\<^verbatim>\<open>sizeof(char*)\<close> (an LP64 platform).\<close>

definition sizeof_char_ptr :: nat where
  "sizeof_char_ptr = 8"

text \<open>
  \<^verbatim>\<open>strtok\<close> of the C library (ISO C), on the string \<open>s\<close> that is left to scan: it
  skips the leading delimiters; if nothing is left it gives the null pointer;
  otherwise the token runs up to the next delimiter or the end of the string, and
  scanning resumes behind that delimiter. The second component is what the next
  \<^verbatim>\<open>strtok(NULL, delim)\<close> scans.
\<close>

definition strtok :: "string \<Rightarrow> string \<Rightarrow> string option \<times> string" where
  "strtok s delim =
     (let s1 = dropWhile (\<lambda>c. c \<in> set delim) s in
      if s1 = [] then (None, [])
      else (Some (takeWhile (\<lambda>c. c \<notin> set delim) s1),
            drop 1 (dropWhile (\<lambda>c. c \<notin> set delim) s1)))"

text \<open>
  The \<^verbatim>\<open>while (token != NULL)\<close> loop of \<^verbatim>\<open>csh_split_line\<close>. \<open>token\<close> is the result
  of the last \<^verbatim>\<open>strtok\<close>, \<open>rest\<close> what \<^verbatim>\<open>strtok\<close> has left to scan, \<open>tokens\<close> the
  entries stored so far (\<open>position\<close> is their number, so \<^verbatim>\<open>tokens[position] = token\<close>
  appends).
\<close>

function csh_split_line_loop ::
  "os \<Rightarrow> string option \<Rightarrow> string \<Rightarrow> string option list \<Rightarrow> int \<Rightarrow> int \<Rightarrow> world
     \<Rightarrow> string option list outcome" where
  "csh_split_line_loop os token rest tokens position bufsize w =
     (case token of
        None \<Rightarrow> Returns (tokens @ [None]) w
      | Some t \<Rightarrow>
          (let tokens1 = tokens @ [Some t];
               position1 = position + 1
           in if position1 \<ge> bufsize then
                (if INT_MAX < bufsize + CSH_TOK_BUFSIZE then Undef
                 else if alloc_ok os (nat (bufsize + CSH_TOK_BUFSIZE) * sizeof_char_ptr)
                 then csh_split_line_loop os (fst (strtok rest CSH_TOK_DELIM))
                        (snd (strtok rest CSH_TOK_DELIM)) tokens1 position1
                        (bufsize + CSH_TOK_BUFSIZE) w
                 else Exits EXIT_FAILURE
                        (fprintf_stderr (''lsh: allocation error'' @ [NL]) w))
              else csh_split_line_loop os (fst (strtok rest CSH_TOK_DELIM))
                     (snd (strtok rest CSH_TOK_DELIM)) tokens1 position1 bufsize w))"
  by pat_completeness auto
termination
proof -
  have shorter: "length (snd (strtok s delim)) < length s"
    if a: "fst (strtok s delim) = Some t" for s delim t
  proof -
    let ?s1 = "dropWhile (\<lambda>c. c \<in> set delim) s"
    let ?s2 = "dropWhile (\<lambda>c. c \<notin> set delim) ?s1"
    have ne: "?s1 \<noteq> []"
    proof
      assume "?s1 = []"
      then have "strtok s delim = (None, [])"
        by (simp add: strtok_def)
      with a show False by simp
    qed
    then have r: "snd (strtok s delim) = drop 1 ?s2"
      by (simp add: strtok_def Let_def del: dropWhile_eq_Nil_conv)
    obtain x xs where s1: "?s1 = x # xs"
      using ne by (cases ?s1) auto
    have "x \<notin> set delim"
      using hd_dropWhile [of "\<lambda>c. c \<in> set delim" s] ne s1 by simp
    then have "?s2 = dropWhile (\<lambda>c. c \<notin> set delim) xs"
      unfolding s1 by simp
    then have "length ?s2 \<le> length xs"
      by (simp only: length_dropWhile_le)
    moreover have "length xs < length ?s1"
      unfolding s1 by simp
    moreover have "length ?s1 \<le> length s"
      by (rule length_dropWhile_le)
    moreover have "length (drop 1 ?s2) \<le> length ?s2"
      by simp
    ultimately show ?thesis
      unfolding r by linarith
  qed
  show ?thesis
    by (relation "measure (\<lambda>(os, token, rest, tokens, position, bufsize, w).
           (case token of None \<Rightarrow> 0 | Some t \<Rightarrow> Suc (length rest)))")
       (auto split: option.splits dest: shorter)
qed

definition csh_split_line :: "os \<Rightarrow> string \<Rightarrow> world \<Rightarrow> string option list outcome" where
  "csh_split_line os line w =
     (let bufsize = CSH_TOK_BUFSIZE; position = 0 in
      if \<not> alloc_ok os (nat bufsize * sizeof_char_ptr)
      then Exits EXIT_FAILURE (fprintf_stderr (''lsh: allocation error'' @ [NL]) w)
      else csh_split_line_loop os (fst (strtok (cstring line) CSH_TOK_DELIM))
             (snd (strtok (cstring line) CSH_TOK_DELIM)) [] position bufsize w)"

declare csh_help_loop.simps [simp del]
declare csh_execute_loop.simps [simp del]
declare csh_read_line_loop.simps [simp del]
declare csh_split_line_loop.simps [simp del]

section \<open>Concrete inputs\<close>

text \<open>
  An operating system on which every allocation succeeds, \<^verbatim>\<open>chdir\<close> accepts only
  \<^verbatim>\<open>/tmp\<close>, \<^verbatim>\<open>fork\<close> succeeds, and the child is stopped twice before it exits
  with status 0; the same system with a failing \<^verbatim>\<open>fork\<close> and a \<^verbatim>\<open>waitpid\<close> that
  would never return; the same system with a \<^verbatim>\<open>waitpid\<close> that fails at every call
  (as it does when \<^verbatim>\<open>SIGCHLD\<close> is ignored), the uninitialised \<^verbatim>\<open>status\<close> reading as
  exit status 0 or as no status; and a process state with nothing read or written yet.
\<close>

definition example_os :: os where
  "example_os =
     \<lparr>alloc_ok = (\<lambda>n. True),
      chdir_sys = (\<lambda>d p. if p = ''/tmp'' then Inr ''/tmp'' else Inl ''No such file or directory''),
      fork_pid = 4242,
      fork_err = ''Resource temporarily unavailable'',
      execvp_sys = (\<lambda>f a. Some ''No such file or directory''),
      waitpid_sys = (\<lambda>k. if k < 2 then Some (Stored (WStopped 19)) else Some (Stored (WExited 0))),
      status_init = NoStatus\<rparr>"

definition example_os_fork_fails :: os where
  "example_os_fork_fails = example_os\<lparr>fork_pid := - 1, waitpid_sys := (\<lambda>k. None)\<rparr>"



definition example_world :: world where
  "example_world = \<lparr>cwd = ''/home'', stdin = [], stdout = [], stderr = []\<rparr>"

section \<open>Properties of dispatch and the builtins\<close>

lemma strcmp_zero_iff: "strcmp a b = 0 \<longleftrightarrow> a = b"
  by (induction a b rule: strcmp.induct) auto

lemma builtin_str_nth:
  "builtin_str ! 0 = ''cd''"
  "builtin_str ! Suc 0 = ''help''"
  "builtin_str ! Suc (Suc 0) = ''exit''"
  by (simp_all add: builtin_str_def)

lemma csh_num_builtins_3: "csh_num_builtins = 3"
  by (simp add: csh_num_builtins_def builtin_str_def)

lemma execute_loop_exit: "csh_execute_loop 0 os ''exit'' args w = csh_exit os args w"
  by (simp add: csh_execute_loop.simps [of 0] csh_execute_loop.simps [of "Suc 0"]
      csh_execute_loop.simps [of "Suc (Suc 0)"] csh_num_builtins_3 builtin_str_nth
      strcmp_zero_iff builtin_func_def)

lemma execute_loop_cd: "csh_execute_loop 0 os ''cd'' args w = csh_cd os args w"
  by (simp add: csh_execute_loop.simps [of 0] csh_num_builtins_3 builtin_str_nth
      strcmp_zero_iff builtin_func_def)

lemma execute_loop_help: "csh_execute_loop 0 os ''help'' args w = csh_help os args w"
  by (simp add: csh_execute_loop.simps [of 0] csh_execute_loop.simps [of "Suc 0"]
      csh_num_builtins_3 builtin_str_nth strcmp_zero_iff builtin_func_def)

lemma help_loop_prints:
  "csh_help_loop 0 w = w\<lparr>stdout := stdout w @ ''  cd'' @ [NL] @ ''  help'' @ [NL] @ ''  exit'' @ [NL]\<rparr>"
  by (simp add: csh_help_loop.simps [of 0] csh_help_loop.simps [of "Suc 0"]
      csh_help_loop.simps [of "Suc (Suc 0)"] csh_help_loop.simps [of "Suc (Suc (Suc 0))"]
      csh_num_builtins_3 builtin_str_nth printf_def)

text \<open>
  C2. For every token vector whose first token is \<^verbatim>\<open>exit\<close>, \<^verbatim>\<open>csh_execute\<close>
  returns the terminate signal 0, whatever arguments follow and whatever the state and
  the operating system are, and it leaves the state as it was; in particular for the
  vector \<^verbatim>\<open>["exit", "7", NULL]\<close>.
\<close>

theorem dispatch_exit_terminates:
  "csh_execute os (Some ''exit'' # rest) w = Returns 0 w
   \<and> csh_execute os [Some ''exit'', Some ''7'', None] w = Returns 0 w"
  by (simp add: csh_execute_def execute_loop_exit csh_exit_def)

theorem dispatch_exit_terminates_witness:
  "csh_execute example_os [Some ''exit'', Some ''--now'', None] example_world = Returns 0 example_world"
  using dispatch_exit_terminates [of example_os "[Some ''--now'', None]" example_world]
  by (rule conjunct1)

text \<open>
  C4. For every token vector whose first entry is the null pointer, \<^verbatim>\<open>csh_execute\<close>
  returns the continue signal 1 at once: the result is the same for every operating
  system (neither the table of builtins nor \<^verbatim>\<open>csh_launch\<close> contributes to it), and
  the state of the process is unchanged.
\<close>

theorem dispatch_null_continues:
  "csh_execute os (None # rest) w = Returns 1 w"
  by (simp add: csh_execute_def)

theorem dispatch_null_continues_witness:
  "csh_execute example_os [None] example_world = Returns 1 example_world"
  by (rule dispatch_null_continues)

text \<open>
  C3. Every failing \<^verbatim>\<open>cd\<close> reports an error and continues, in the unchanged
  directory: with a null \<^verbatim>\<open>args[1]\<close> the message \<^verbatim>\<open>lsh: cd: missing argument\<close> is
  appended to standard error, and when \<^verbatim>\<open>chdir\<close> fails the message of \<^verbatim>\<open>perror\<close>
  is; in both cases 1 is returned and nothing but standard error changes. Whatever
  \<^verbatim>\<open>args[1]\<close> is, \<^verbatim>\<open>csh_cd\<close> returns 1. Dispatching \<^verbatim>\<open>["cd", NULL]\<close> is the first
  case.
\<close>

theorem cd_failure_continues:
  "csh_cd os (a0 # None # rest) w =
     Returns 1 (w\<lparr>stderr := stderr w @ ''lsh: cd: missing argument'' @ [NL]\<rparr>)
   \<and> (chdir_sys os (cwd w) p = Inl m \<longrightarrow>
        csh_cd os (a0 # Some p # rest) w =
          Returns 1 (w\<lparr>stderr := stderr w @ ''lsh: '' @ m @ [NL]\<rparr>))
   \<and> (\<exists>w'. csh_cd os (a0 # a1 # rest) w = Returns 1 w')
   \<and> csh_execute os [Some ''cd'', None] w =
        Returns 1 (w\<lparr>stderr := stderr w @ ''lsh: cd: missing argument'' @ [NL]\<rparr>)"
  by (simp add: csh_cd_def csh_execute_def execute_loop_cd fprintf_stderr_def perror_def
      split: option.split sum.split)

theorem cd_failure_continues_witness:
  "chdir_sys example_os (cwd example_world) ''/nonexistent-path-xyz'' = Inl ''No such file or directory''
   \<and> csh_cd example_os [Some ''cd'', Some ''/nonexistent-path-xyz'', None] example_world =
       Returns 1 (example_world\<lparr>stderr := ''lsh: No such file or directory'' @ [NL]\<rparr>)"
proof -
  have h: "chdir_sys example_os (cwd example_world) ''/nonexistent-path-xyz'' = Inl ''No such file or directory''"
    by (simp add: example_os_def)
  have "stderr example_world = []"
    by (simp add: example_world_def)
  with h cd_failure_continues [of example_os "Some ''cd''" "[None]" example_world
      "''/nonexistent-path-xyz''" "''No such file or directory''" None]
  show ?thesis by simp
qed

text \<open>
  C9. What \<^verbatim>\<open>csh_cd\<close> does depends on \<^verbatim>\<open>args[1]\<close> only: two argument vectors with
  the same second entry give the same outcome (the same attempt to change directory, the
  same error output, the same return value), whatever their first entries are and
  whatever follows the second entry. Further arguments are ignored and no error is
  reported for them.
\<close>

theorem cd_ignores_extra_arguments:
  "csh_cd os (a0 # a1 # rest) w = csh_cd os (b0 # a1 # rest') w"
  by (simp add: csh_cd_def)

theorem cd_ignores_extra_arguments_witness:
  "csh_cd example_os [Some ''cd'', Some ''/tmp'', Some ''extra'', Some ''more'', None] example_world =
   csh_cd example_os [Some ''cd'', Some ''/tmp'', None] example_world"
  by (rule cd_ignores_extra_arguments)

text \<open>
  C8. Every call of \<^verbatim>\<open>csh_help\<close>, whatever its arguments and whatever was printed
  before, appends the same fixed text to standard output and returns 1: the three lines
  of the banner, then exactly the three builtin names \<^verbatim>\<open>cd\<close>, \<^verbatim>\<open>help\<close>, \<^verbatim>\<open>exit\<close>
  (each on a line, indented by two spaces), then the closing line about \<^verbatim>\<open>man\<close>.
  A second call appends the same text again, and dispatching \<^verbatim>\<open>["help", NULL]\<close> is
  such a call.
\<close>

theorem help_prints_fixed_text:
  "(let text = ''Ishan Leung'' @ [CHR 0x27] @ ''s C Shell'' @ [NL]
        @ ''Type program names and arguments, and press the enter key.'' @ [NL]
        @ ''The following are built-in commands:'' @ [NL]
        @ ''  cd'' @ [NL] @ ''  help'' @ [NL] @ ''  exit'' @ [NL]
        @ ''Use the man command for info on other programs. '' @ [NL]
    in csh_help os args w = Returns 1 (w\<lparr>stdout := stdout w @ text\<rparr>)
       \<and> csh_help os args' (w\<lparr>stdout := stdout w @ text\<rparr>) =
           Returns 1 (w\<lparr>stdout := stdout w @ text @ text\<rparr>)
       \<and> csh_execute os [Some ''help'', None] w = Returns 1 (w\<lparr>stdout := stdout w @ text\<rparr>))"
  by (simp add: csh_help_def Let_def help_loop_prints printf_def csh_execute_def execute_loop_help)

theorem help_prints_fixed_text_witness:
  "csh_help example_os [Some ''help'', Some ''me'', None] example_world =
     Returns 1 (example_world\<lparr>stdout :=
        ''Ishan Leung'' @ [CHR 0x27] @ ''s C Shell'' @ [NL]
        @ ''Type program names and arguments, and press the enter key.'' @ [NL]
        @ ''The following are built-in commands:'' @ [NL]
        @ ''  cd'' @ [NL] @ ''  help'' @ [NL] @ ''  exit'' @ [NL]
        @ ''Use the man command for info on other programs. '' @ [NL]\<rparr>)"
proof -
  have empty: "stdout example_world = []"
    by (simp add: example_world_def)
  show ?thesis
    using help_prints_fixed_text [of example_os "[Some ''help'', Some ''me'', None]" example_world]
    by (simp add: Let_def empty)
qed

section \<open>Properties of launching\<close>

lemma not_terminal_cases:
  "(\<not> WIFEXITED st \<and> \<not> WIFSIGNALED st) \<longleftrightarrow> (st = NoStatus \<or> (\<exists>t. st = Status (WStopped t)))"
proof (cases st)
  case (Status s)
  then show ?thesis by (cases s) simp_all
next
  case NoStatus
  then show ?thesis by simp
qed

lemma wait_loop_again:
  "waitpid n = Some r \<Longrightarrow>
   \<not> WIFEXITED (waitpid_store r status) \<Longrightarrow> \<not> WIFSIGNALED (waitpid_store r status) \<Longrightarrow>
   csh_wait_loop waitpid status n = csh_wait_loop waitpid (waitpid_store r status) (Suc n)"
  by (subst csh_wait_loop.simps) simp

lemma wait_loop_exit:
  "waitpid n = Some r \<Longrightarrow>
   WIFEXITED (waitpid_store r status) \<or> WIFSIGNALED (waitpid_store r status) \<Longrightarrow>
   csh_wait_loop waitpid status n = Some (waitpid_store r status)"
  by (subst csh_wait_loop.simps) auto

lemma wait_loop_blocked:
  "waitpid n = None \<Longrightarrow> csh_wait_loop waitpid status n = None"
  by (subst csh_wait_loop.simps) simp

lemma wait_loop_stopped:
  "waitpid n = Some (Stored (WStopped t)) \<Longrightarrow>
   csh_wait_loop waitpid status n = csh_wait_loop waitpid (Status (WStopped t)) (Suc n)"
  by (subst csh_wait_loop.simps) (simp add: waitpid_store_def)

text \<open>The loop returns as soon as some call stores a terminal status.\<close>

lemma wait_loop_returns:
  assumes "waitpid k = Some (Stored s)" and "WIFEXITED (Status s) \<or> WIFSIGNALED (Status s)"
    and "\<forall>j. n \<le> j \<and> j < k \<longrightarrow> waitpid j \<noteq> None" and "n \<le> k"
  shows "\<exists>st. csh_wait_loop waitpid status n = Some st"
  using assms
proof (induction "k - n" arbitrary: n status)
  case 0
  then have "n = k" by simp
  with 0 have "waitpid n = Some (Stored s)"
    and "WIFEXITED (waitpid_store (Stored s) status) \<or> WIFSIGNALED (waitpid_store (Stored s) status)"
    by (simp_all add: waitpid_store_def)
  from wait_loop_exit [of waitpid n "Stored s" status, OF this] show ?case by blast
next
  case (Suc d)
  then have lt: "n < k" by simp
  with Suc.prems(3) have "waitpid n \<noteq> None" by simp
  then obtain r where r: "waitpid n = Some r" by blast
  show ?case
  proof (cases "WIFEXITED (waitpid_store r status) \<or> WIFSIGNALED (waitpid_store r status)")
    case True
    from wait_loop_exit [of waitpid n r status, OF r True] show ?thesis by blast
  next
    case False
    then have step: "csh_wait_loop waitpid status n =
        csh_wait_loop waitpid (waitpid_store r status) (Suc n)"
      using wait_loop_again [of waitpid n r status, OF r] by simp
    have "\<exists>st. csh_wait_loop waitpid (waitpid_store r status) (Suc n) = Some st"
    proof (rule Suc.hyps(1))
      show "d = k - Suc n" using Suc.hyps(2) by simp
      show "waitpid k = Some (Stored s)" by (rule Suc.prems(1))
      show "WIFEXITED (Status s) \<or> WIFSIGNALED (Status s)" by (rule Suc.prems(2))
      show "\<forall>j. Suc n \<le> j \<and> j < k \<longrightarrow> waitpid j \<noteq> None" using Suc.prems(3) by simp
      show "Suc n \<le> k" using lt by simp
    qed
    with step show ?thesis by simp
  qed
qed



text \<open>
  When no call of \<^verbatim>\<open>waitpid\<close> fails, the loop ends with a status that a call stored,
  an exit or a death by signal, and every call before that one stored a stop.
\<close>

lemma wait_loop_result_no_failure:
  assumes ret: "csh_wait_loop waitpid status n = Some st"
    and ok: "\<forall>j. waitpid j \<noteq> Some Failed"
  shows "\<exists>k\<ge>n. \<exists>s. waitpid k = Some (Stored s) \<and> st = Status s
           \<and> (WIFEXITED st \<or> WIFSIGNALED st)
           \<and> (\<forall>j. n \<le> j \<and> j < k \<longrightarrow> (\<exists>t. waitpid j = Some (Stored (WStopped t))))"
proof -
  let ?Q = "\<lambda>wp n st. \<exists>k\<ge>n. \<exists>s. wp k = Some (Stored s) \<and> st = Status s
           \<and> (WIFEXITED st \<or> WIFSIGNALED st)
           \<and> (\<forall>j. n \<le> j \<and> j < k \<longrightarrow> (\<exists>t. wp j = Some (Stored (WStopped t))))"
  let ?P = "\<lambda>wp (status :: status_int) n st. (\<forall>j. wp j \<noteq> Some Failed) \<longrightarrow> ?Q wp n st"
  have "?P waitpid status n st"
  proof (rule csh_wait_loop.raw_induct [where P = ?P, OF _ ret])
    fix loop :: "(nat \<Rightarrow> wait_result option) \<Rightarrow> status_int \<Rightarrow> nat \<Rightarrow> status_int option"
    fix wp :: "nat \<Rightarrow> wait_result option" and status n st
    assume IH: "\<And>wp status n st. loop wp status n = Some st \<Longrightarrow> ?P wp status n st"
    assume eq: "(case wp n of None \<Rightarrow> None
      | Some r \<Rightarrow>
          if \<not> WIFEXITED (waitpid_store r status) \<and> \<not> WIFSIGNALED (waitpid_store r status)
          then loop wp (waitpid_store r status) (Suc n)
          else Some (waitpid_store r status)) = Some st"
    show "?P wp status n st"
    proof (rule impI)
      assume ok: "\<forall>j. wp j \<noteq> Some Failed"
      from eq obtain r where r: "wp n = Some r"
        by (cases "wp n") simp_all
      with ok obtain s where s: "wp n = Some (Stored s)"
        by (cases r) auto
      with r have store: "waitpid_store r status = Status s"
        by (auto simp: waitpid_store_def)
      show "?Q wp n st"
      proof (cases "WIFEXITED (Status s) \<or> WIFSIGNALED (Status s)")
        case True
        with eq r store have "st = Status s" by auto
        with True s show ?thesis
          by (intro exI [where x = n] exI [where x = s]) auto
      next
        case False
        then obtain t where t: "s = WStopped t"
          using not_terminal_cases [of "Status s"] by auto
        from False eq r store have "loop wp (Status s) (Suc n) = Some st" by simp
        from IH [OF this] ok obtain k s' where k: "Suc n \<le> k" "wp k = Some (Stored s')"
            "st = Status s'" "WIFEXITED st \<or> WIFSIGNALED st"
            "\<forall>j. Suc n \<le> j \<and> j < k \<longrightarrow> (\<exists>t. wp j = Some (Stored (WStopped t)))"
          by blast
        have "\<exists>t. wp j = Some (Stored (WStopped t))" if "n \<le> j \<and> j < k" for j
        proof (cases "j = n")
          case True
          with s t show ?thesis by simp
        next
          case False
          with that have "Suc n \<le> j \<and> j < k" by simp
          with k(5) show ?thesis by simp
        qed
        moreover have "n \<le> k" using k(1) by simp
        ultimately show ?thesis
          using k(2,3,4) by blast
      qed
    qed
  qed
  with ok show ?thesis by simp
qed


lemma launch_parent:
  "0 < fork_pid os \<Longrightarrow>
   csh_launch os args w =
     (case csh_wait_loop (waitpid_sys os) (status_init os) 0 of None \<Rightarrow> Blocks | Some status \<Rightarrow> Returns 1 w)"
  by (simp add: csh_launch_def Let_def)

lemma launch_fork_failed:
  "fork_pid os < 0 \<Longrightarrow> csh_launch os args w = Returns 1 (perror ''lsh'' (fork_err os) w)"
  by (simp add: csh_launch_def Let_def)

lemma launch_return_value:
  "csh_launch os args w = Returns r w' \<Longrightarrow> r = 1"
  by (auto simp: csh_launch_def Let_def split: if_splits option.splits)

lemma launch_shell_not_exits:
  "fork_pid os \<noteq> 0 \<Longrightarrow> csh_launch os args w \<noteq> Exits c w'"
  by (auto simp: csh_launch_def Let_def split: if_splits option.splits)

lemma launch_returns_after_termination:
  assumes "0 < fork_pid os" and "\<forall>j. waitpid_sys os j \<noteq> Some Failed"
    and "csh_launch os args w = Returns r w'"
  shows "\<exists>k s. waitpid_sys os k = Some (Stored s)
           \<and> (WIFEXITED (Status s) \<or> WIFSIGNALED (Status s))
           \<and> (\<forall>j<k. \<exists>t. waitpid_sys os j = Some (Stored (WStopped t)))"
proof -
  from assms(1,3) obtain st where "csh_wait_loop (waitpid_sys os) (status_init os) 0 = Some st"
    by (auto simp: launch_parent split: option.splits)
  from wait_loop_result_no_failure [OF this assms(2)] show ?thesis
    by auto
qed

text \<open>
  C6. \<^verbatim>\<open>csh_launch\<close> only ever returns the continue signal 1. When \<^verbatim>\<open>fork\<close> fails
  (a negative result), it appends the message of \<^verbatim>\<open>perror\<close> to standard error and
  returns 1 without calling \<^verbatim>\<open>waitpid\<close>: this holds for every \<^verbatim>\<open>waitpid\<close>, also one
  that would never return. After a successful \<^verbatim>\<open>fork\<close>, in the parent, it returns 1
  with the state unchanged as soon as some call of \<^verbatim>\<open>waitpid\<close> reports that the child
  exited or was killed. Whenever it returns, the value is 1, and in the shell process
  (a nonzero result of \<^verbatim>\<open>fork\<close>) it never ends the process through \<^verbatim>\<open>exit\<close>.
  (While the child neither exits nor is killed, the call does not return; in the
  forked child the function does not return either, the process becoming the program
  or exiting with a failure status.)
\<close>

theorem launch_returns_continue:
  "(fork_pid os < 0 \<longrightarrow>
      csh_launch os args w = Returns 1 (w\<lparr>stderr := stderr w @ ''lsh: '' @ fork_err os @ [NL]\<rparr>))
   \<and> (0 < fork_pid os
        \<and> (\<exists>k s. waitpid_sys os k = Some (Stored s) \<and> (WIFEXITED (Status s) \<or> WIFSIGNALED (Status s))
               \<and> (\<forall>j<k. waitpid_sys os j \<noteq> None))
      \<longrightarrow> csh_launch os args w = Returns 1 w)
   \<and> (\<forall>r w'. csh_launch os args w = Returns r w' \<longrightarrow> r = 1)
   \<and> (fork_pid os \<noteq> 0 \<longrightarrow> (\<forall>c w'. csh_launch os args w \<noteq> Exits c w'))"
proof (intro conjI impI allI)
  assume "fork_pid os < 0"
  then show "csh_launch os args w = Returns 1 (w\<lparr>stderr := stderr w @ ''lsh: '' @ fork_err os @ [NL]\<rparr>)"
    by (simp add: launch_fork_failed perror_def fprintf_stderr_def)
next
  assume a: "0 < fork_pid os
        \<and> (\<exists>k s. waitpid_sys os k = Some (Stored s) \<and> (WIFEXITED (Status s) \<or> WIFSIGNALED (Status s))
               \<and> (\<forall>j<k. waitpid_sys os j \<noteq> None))"
  then obtain k s where "waitpid_sys os k = Some (Stored s)" "WIFEXITED (Status s) \<or> WIFSIGNALED (Status s)"
      "\<forall>j<k. waitpid_sys os j \<noteq> None"
    by blast
  then have "\<exists>st. csh_wait_loop (waitpid_sys os) (status_init os) 0 = Some st"
    by (intro wait_loop_returns [where k = k and s = s]) simp_all
  with a show "csh_launch os args w = Returns 1 w"
    by (auto simp: launch_parent)
next
  fix r w' assume "csh_launch os args w = Returns r w'"
  then show "r = 1" by (rule launch_return_value)
next
  fix c w' assume "fork_pid os \<noteq> 0"
  then show "csh_launch os args w \<noteq> Exits c w'" by (rule launch_shell_not_exits)
qed

theorem launch_returns_continue_witness:
  "fork_pid example_os_fork_fails < 0
   \<and> csh_launch example_os_fork_fails [Some ''ls'', None] example_world =
       Returns 1 (example_world\<lparr>stderr := ''lsh: Resource temporarily unavailable'' @ [NL]\<rparr>)
   \<and> 0 < fork_pid example_os
   \<and> waitpid_sys example_os 2 = Some (Stored (WExited 0))
   \<and> csh_launch example_os [Some ''ls'', None] example_world = Returns 1 example_world"
proof -
  have f: "fork_pid example_os_fork_fails < 0"
    by (simp add: example_os_fork_fails_def)
  have e: "fork_err example_os_fork_fails = ''Resource temporarily unavailable''"
    by (simp add: example_os_fork_fails_def example_os_def)
  have p: "0 < fork_pid example_os"
    by (simp add: example_os_def)
  have s: "waitpid_sys example_os 2 = Some (Stored (WExited 0))"
    by (simp add: example_os_def)
  have n: "waitpid_sys example_os j \<noteq> None" for j
    by (simp add: example_os_def)
  have ex: "\<exists>k s. waitpid_sys example_os k = Some (Stored s) \<and> (WIFEXITED (Status s) \<or> WIFSIGNALED (Status s))
               \<and> (\<forall>j<k. waitpid_sys example_os j \<noteq> None)"
  proof (intro exI conjI allI impI)
    show "waitpid_sys example_os 2 = Some (Stored (WExited 0))" by (rule s)
    show "WIFEXITED (Status (WExited 0)) \<or> WIFSIGNALED (Status (WExited 0))" by simp
    show "waitpid_sys example_os j \<noteq> None" for j by (rule n)
  qed
  have empty: "stderr example_world = []"
    by (simp add: example_world_def)
  note t1 = launch_returns_continue [of example_os_fork_fails "[Some ''ls'', None]" example_world]
  have "csh_launch example_os_fork_fails [Some ''ls'', None] example_world =
        Returns 1 (example_world\<lparr>stderr := stderr example_world @ ''lsh: ''
          @ fork_err example_os_fork_fails @ [NL]\<rparr>)"
    using conjunct1 [OF t1] f by (rule mp)
  then have a: "csh_launch example_os_fork_fails [Some ''ls'', None] example_world =
       Returns 1 (example_world\<lparr>stderr := ''lsh: Resource temporarily unavailable'' @ [NL]\<rparr>)"
    unfolding e empty by simp
  note t2 = launch_returns_continue [of example_os "[Some ''ls'', None]" example_world]
  have b: "csh_launch example_os [Some ''ls'', None] example_world = Returns 1 example_world"
    using conjunct1 [OF conjunct2 [OF t2]] conjI [OF p ex] by (rule mp)
  show ?thesis
    by (intro conjI f a p s b)
qed


section \<open>Properties of the tokenizer\<close>

lemma strtok_None_iff:
  "fst (strtok s delim) = None \<longleftrightarrow> (\<forall>c\<in>set s. c \<in> set delim)"
  by (simp add: strtok_def Let_def)

lemma strtok_None_rest:
  "fst (strtok s delim) = None \<Longrightarrow> snd (strtok s delim) = []"
  by (simp add: strtok_def Let_def split: if_splits)

lemma strtok_token:
  assumes "fst (strtok s delim) = Some t"
  shows "t \<noteq> [] \<and> (\<forall>c\<in>set t. c \<notin> set delim)"
proof -
  let ?s1 = "dropWhile (\<lambda>c. c \<in> set delim) s"
  have ne: "?s1 \<noteq> []"
    using assms by (auto simp: strtok_def Let_def split: if_splits simp del: dropWhile_eq_Nil_conv)
  then have t: "t = takeWhile (\<lambda>c. c \<notin> set delim) ?s1"
    using assms by (simp add: strtok_def Let_def del: dropWhile_eq_Nil_conv)
  have "hd ?s1 \<notin> set delim"
    using hd_dropWhile [of "\<lambda>c. c \<in> set delim" s] ne by simp
  then have "takeWhile (\<lambda>c. c \<notin> set delim) ?s1 \<noteq> []"
    using ne by (cases ?s1) (simp_all del: dropWhile_eq_Nil_conv)
  moreover have "\<forall>c\<in>set (takeWhile (\<lambda>c. c \<notin> set delim) ?s1). c \<notin> set delim"
    by (auto dest: set_takeWhileD)
  ultimately show ?thesis
    unfolding t by blast
qed

lemma strtok_shorter:
  assumes "fst (strtok s delim) = Some t"
  shows "length (snd (strtok s delim)) < length s"
proof -
  let ?s1 = "dropWhile (\<lambda>c. c \<in> set delim) s"
  let ?s2 = "dropWhile (\<lambda>c. c \<notin> set delim) ?s1"
  have ne: "?s1 \<noteq> []"
    using assms by (auto simp: strtok_def Let_def split: if_splits simp del: dropWhile_eq_Nil_conv)
  then have r: "snd (strtok s delim) = drop 1 ?s2"
    by (simp add: strtok_def Let_def del: dropWhile_eq_Nil_conv)
  obtain x xs where s1: "?s1 = x # xs"
    using ne by (cases ?s1) auto
  have "x \<notin> set delim"
    using hd_dropWhile [of "\<lambda>c. c \<in> set delim" s] ne s1 by simp
  then have "?s2 = dropWhile (\<lambda>c. c \<notin> set delim) xs"
    unfolding s1 by simp
  then have "length ?s2 \<le> length xs"
    by (simp only: length_dropWhile_le)
  moreover have "length xs < length ?s1"
    unfolding s1 by simp
  moreover have "length ?s1 \<le> length s"
    by (rule length_dropWhile_le)
  moreover have "length (drop 1 ?s2) \<le> length ?s2"
    by simp
  ultimately show ?thesis
    unfolding r by linarith
qed


lemma split_loop_None:
  "csh_split_line_loop os None rest tokens position bufsize w = Returns (tokens @ [None]) w"
  by (simp add: csh_split_line_loop.simps)

lemma split_loop_Some:
  "csh_split_line_loop os (Some t) rest tokens position bufsize w =
     (if position + 1 \<ge> bufsize then
        (if INT_MAX < bufsize + CSH_TOK_BUFSIZE then Undef
         else if alloc_ok os (nat (bufsize + CSH_TOK_BUFSIZE) * sizeof_char_ptr)
         then csh_split_line_loop os (fst (strtok rest CSH_TOK_DELIM))
                (snd (strtok rest CSH_TOK_DELIM)) (tokens @ [Some t]) (position + 1)
                (bufsize + CSH_TOK_BUFSIZE) w
         else Exits EXIT_FAILURE (fprintf_stderr (''lsh: allocation error'' @ [NL]) w))
      else csh_split_line_loop os (fst (strtok rest CSH_TOK_DELIM))
             (snd (strtok rest CSH_TOK_DELIM)) (tokens @ [Some t]) (position + 1) bufsize w)"
  by (subst csh_split_line_loop.simps) (simp add: Let_def)

lemma split_loop_result:
  "csh_split_line_loop os token rest tokens position bufsize w = Returns tv w' \<Longrightarrow>
   (\<forall>t. token = Some t \<longrightarrow> (t \<noteq> [] \<and> (\<forall>c\<in>set t. c \<notin> set CSH_TOK_DELIM))) \<Longrightarrow>
   w' = w \<and> (\<exists>toks. tv = tokens @ map Some toks @ [None] \<and> (\<forall>t\<in>set toks. (t \<noteq> [] \<and> (\<forall>c\<in>set t. c \<notin> set CSH_TOK_DELIM))))"
proof (induction os token rest tokens position bufsize w rule: csh_split_line_loop.induct)
  case (1 os token rest tokens position bufsize w)
  show ?case
  proof (cases token)
    case None
    with "1.prems"(1) have "tv = tokens @ [None]" "w' = w"
      by (simp_all add: split_loop_None)
    then have "tv = tokens @ map Some [] @ [None] \<and> (\<forall>t\<in>set []. (t \<noteq> [] \<and> (\<forall>c\<in>set t. c \<notin> set CSH_TOK_DELIM)))"
      by simp
    with \<open>w' = w\<close> show ?thesis by blast
  next
    case (Some t)
    let ?token = "fst (strtok rest CSH_TOK_DELIM)"
    let ?rest = "snd (strtok rest CSH_TOK_DELIM)"
    have ok: "(t \<noteq> [] \<and> (\<forall>c\<in>set t. c \<notin> set CSH_TOK_DELIM))"
      using "1.prems"(2) Some by simp
    have next_ok: "\<forall>u. ?token = Some u \<longrightarrow> (u \<noteq> [] \<and> (\<forall>c\<in>set u. c \<notin> set CSH_TOK_DELIM))"
      using strtok_token [of rest CSH_TOK_DELIM] by simp
    have rec: "w' = w \<and> (\<exists>toks. tv = (tokens @ [Some t]) @ map Some toks @ [None]
                 \<and> (\<forall>t\<in>set toks. (t \<noteq> [] \<and> (\<forall>c\<in>set t. c \<notin> set CSH_TOK_DELIM))))"
    proof (cases "position + 1 \<ge> bufsize")
      case True
      with "1.prems"(1) Some have no: "\<not> INT_MAX < bufsize + CSH_TOK_BUFSIZE"
        and al: "alloc_ok os (nat (bufsize + CSH_TOK_BUFSIZE) * sizeof_char_ptr)"
        and call: "csh_split_line_loop os ?token ?rest (tokens @ [Some t]) (position + 1)
                     (bufsize + CSH_TOK_BUFSIZE) w = Returns tv w'"
        by (simp_all add: split_loop_Some split: if_splits)
      show ?thesis
        by (rule "1.IH"(1) [OF Some refl refl True no al call next_ok])
    next
      case False
      with "1.prems"(1) Some have
        call: "csh_split_line_loop os ?token ?rest (tokens @ [Some t]) (position + 1) bufsize w
                 = Returns tv w'"
        by (simp add: split_loop_Some)
      show ?thesis
        by (rule "1.IH"(2) [OF Some refl refl False call next_ok])
    qed
    then obtain toks where "w' = w" "tv = (tokens @ [Some t]) @ map Some toks @ [None]"
        "\<forall>t\<in>set toks. (t \<noteq> [] \<and> (\<forall>c\<in>set t. c \<notin> set CSH_TOK_DELIM))"
      by blast
    with ok have "tv = tokens @ map Some (t # toks) @ [None] \<and> (\<forall>t\<in>set (t # toks). (t \<noteq> [] \<and> (\<forall>c\<in>set t. c \<notin> set CSH_TOK_DELIM)))"
      by simp
    with \<open>w' = w\<close> show ?thesis by blast
  qed
qed


lemma split_loop_total:
  "\<forall>n. alloc_ok os n \<Longrightarrow>
   position + (case token of None \<Rightarrow> 0 | Some t \<Rightarrow> 1 + int (length rest))
     \<le> INT_MAX - CSH_TOK_BUFSIZE \<Longrightarrow>
   \<exists>tv. csh_split_line_loop os token rest tokens position bufsize w = Returns tv w"
proof (induction os token rest tokens position bufsize w rule: csh_split_line_loop.induct)
  case (1 os token rest tokens position bufsize w)
  show ?case
  proof (cases token)
    case None
    then show ?thesis by (simp add: split_loop_None)
  next
    case (Some t)
    let ?token = "fst (strtok rest CSH_TOK_DELIM)"
    let ?rest = "snd (strtok rest CSH_TOK_DELIM)"
    from "1.prems"(2) Some
    have bound: "position + 1 + int (length rest) \<le> INT_MAX - CSH_TOK_BUFSIZE"
      by simp
    have next_bound: "position + 1 + (case ?token of None \<Rightarrow> 0 | Some t \<Rightarrow> 1 + int (length ?rest))
        \<le> INT_MAX - CSH_TOK_BUFSIZE"
    proof (cases ?token)
      case None
      with bound show ?thesis by simp
    next
      case (Some u)
      from strtok_shorter [OF this] have "int (length ?rest) < int (length rest)"
        by simp
      with bound Some show ?thesis by simp
    qed
    have al: "alloc_ok os (nat (bufsize + CSH_TOK_BUFSIZE) * sizeof_char_ptr)"
      using "1.prems"(1) by simp
    show ?thesis
    proof (cases "position + 1 \<ge> bufsize")
      case True
      with bound have no: "\<not> INT_MAX < bufsize + CSH_TOK_BUFSIZE"
        by simp
      from "1.IH"(1) [OF Some refl refl True no al "1.prems"(1) next_bound]
      show ?thesis
        using Some True no al by (simp add: split_loop_Some)
    next
      case False
      from "1.IH"(2) [OF Some refl refl False "1.prems"(1) next_bound]
      show ?thesis
        using Some False by (simp add: split_loop_Some)
    qed
  qed
qed

lemma cstring_subset: "set (cstring line) \<subseteq> set line"
  by (auto simp: cstring_def dest: set_takeWhileD)

lemma cstring_length: "length (cstring line) \<le> length line"
  by (simp add: cstring_def length_takeWhile_le)

lemma split_line_result:
  assumes "csh_split_line os line w = Returns tv w'"
  shows "w' = w \<and> (\<exists>toks. tv = map Some toks @ [None] \<and> (\<forall>t\<in>set toks. (t \<noteq> [] \<and> (\<forall>c\<in>set t. c \<notin> set CSH_TOK_DELIM))))"
proof -
  let ?token = "fst (strtok (cstring line) CSH_TOK_DELIM)"
  let ?rest = "snd (strtok (cstring line) CSH_TOK_DELIM)"
  from assms have "csh_split_line_loop os ?token ?rest [] 0 CSH_TOK_BUFSIZE w = Returns tv w'"
    by (simp add: csh_split_line_def Let_def split: if_splits)
  moreover have "\<forall>t. ?token = Some t \<longrightarrow> (t \<noteq> [] \<and> (\<forall>c\<in>set t. c \<notin> set CSH_TOK_DELIM))"
    using strtok_token [of "cstring line" CSH_TOK_DELIM] by simp
  ultimately show ?thesis
    using split_loop_result [of os ?token ?rest "[]" 0 CSH_TOK_BUFSIZE w tv w'] by simp
qed

lemma split_line_total:
  assumes "\<forall>n. alloc_ok os n" and "int (length line) \<le> INT_MAX - CSH_TOK_BUFSIZE"
  shows "\<exists>tv. csh_split_line os line w = Returns tv w"
proof -
  let ?token = "fst (strtok (cstring line) CSH_TOK_DELIM)"
  let ?rest = "snd (strtok (cstring line) CSH_TOK_DELIM)"
  have "0 + (case ?token of None \<Rightarrow> 0 | Some t \<Rightarrow> 1 + int (length ?rest))
      \<le> INT_MAX - CSH_TOK_BUFSIZE"
  proof (cases ?token)
    case None
    then show ?thesis by (simp add: INT_MAX_def CSH_TOK_BUFSIZE_def)
  next
    case (Some u)
    from strtok_shorter [OF this] have "int (length ?rest) < int (length (cstring line))"
      by simp
    with cstring_length [of line] assms(2) Some show ?thesis by simp
  qed
  from split_loop_total [OF assms(1) this]
  show ?thesis
    using assms(1) by (simp add: csh_split_line_def Let_def)
qed

lemma split_line_all_delimiters:
  assumes "alloc_ok os (nat CSH_TOK_BUFSIZE * sizeof_char_ptr)"
    and "\<forall>c\<in>set line. c \<in> set CSH_TOK_DELIM"
  shows "csh_split_line os line w = Returns [None] w"
proof -
  from assms(2) cstring_subset [of line]
  have "\<forall>c\<in>set (cstring line). c \<in> set CSH_TOK_DELIM"
    by blast
  then have "fst (strtok (cstring line) CSH_TOK_DELIM) = None"
    by (simp only: strtok_None_iff)
  with assms(1) show ?thesis
    by (simp add: csh_split_line_def Let_def split_loop_None)
qed


lemma split_line_example:
  "csh_split_line example_os ''ls -la /tmp'' example_world =
     Returns [Some ''ls'', Some ''-la'', Some ''/tmp'', None] example_world"
  by (simp add: csh_split_line_def Let_def split_loop_Some split_loop_None strtok_def
      cstring_def CSH_TOK_DELIM_def CSH_TOK_BUFSIZE_def INT_MAX_def example_os_def)

text \<open>
  C5. A line that consists of delimiters only (space, tab, carriage return, newline,
  bell), the empty line included, is split into the vector whose only entry is the
  null pointer, provided the initial \<^verbatim>\<open>malloc\<close> of \<^verbatim>\<open>csh_split_line\<close> succeeds (when
  it fails the process exits and there is no vector). And whatever the line is, no
  entry of a vector that \<^verbatim>\<open>csh_split_line\<close> returns is the empty string: adjacent
  delimiters produce no empty token.
\<close>

theorem split_line_delimiters_only:
  "(alloc_ok os (nat CSH_TOK_BUFSIZE * sizeof_char_ptr)
      \<and> (\<forall>c\<in>set line. c \<in> set CSH_TOK_DELIM)
      \<longrightarrow> csh_split_line os line w = Returns [None] w)
   \<and> (csh_split_line os line w = Returns tv w' \<longrightarrow> Some [] \<notin> set tv)"
proof (intro conjI impI)
  assume "alloc_ok os (nat CSH_TOK_BUFSIZE * sizeof_char_ptr)
      \<and> (\<forall>c\<in>set line. c \<in> set CSH_TOK_DELIM)"
  then show "csh_split_line os line w = Returns [None] w"
    by (simp add: split_line_all_delimiters)
next
  assume "csh_split_line os line w = Returns tv w'"
  from split_line_result [OF this] obtain toks where
    "tv = map Some toks @ [None]" "\<forall>t\<in>set toks. t \<noteq> []"
    by blast
  then show "Some [] \<notin> set tv"
    by auto
qed

theorem split_line_delimiters_only_witness:
  "alloc_ok example_os (nat CSH_TOK_BUFSIZE * sizeof_char_ptr)
   \<and> set ('' '' @ [CHR 0x09, CHR 0x0D, CHR 0x0A, CHR 0x07] @ ''  '') \<subseteq> set CSH_TOK_DELIM
   \<and> csh_split_line example_os ('' '' @ [CHR 0x09, CHR 0x0D, CHR 0x0A, CHR 0x07] @ ''  '')
        example_world = Returns [None] example_world
   \<and> csh_split_line example_os ''ls -la /tmp'' example_world =
        Returns [Some ''ls'', Some ''-la'', Some ''/tmp'', None] example_world
   \<and> Some [] \<notin> set [Some ''ls'', Some ''-la'', Some ''/tmp'', None]"
proof -
  let ?line = "'' '' @ [CHR 0x09, CHR 0x0D, CHR 0x0A, CHR 0x07] @ ''  ''"
  have a: "alloc_ok example_os (nat CSH_TOK_BUFSIZE * sizeof_char_ptr)"
    by (simp add: example_os_def)
  have d: "\<forall>c\<in>set ?line. c \<in> set CSH_TOK_DELIM"
    by (simp add: CSH_TOK_DELIM_def)
  note t1 = split_line_delimiters_only [of example_os ?line example_world]
  have r: "csh_split_line example_os ?line example_world = Returns [None] example_world"
    using conjunct1 [OF t1] conjI [OF a d] by (rule mp)
  note t2 = split_line_delimiters_only [of example_os "''ls -la /tmp''" example_world
      "[Some ''ls'', Some ''-la'', Some ''/tmp'', None]" example_world]
  have n: "Some [] \<notin> set [Some ''ls'', Some ''-la'', Some ''/tmp'', None]"
    using conjunct2 [OF t2] split_line_example by (rule mp)
  have d': "set ?line \<subseteq> set CSH_TOK_DELIM"
    by (simp add: CSH_TOK_DELIM_def)
  show ?thesis
    by (intro conjI a d' r split_line_example n)
qed

text \<open>
  C10. Whatever the line is, a vector that \<^verbatim>\<open>csh_split_line\<close> returns is a sequence
  of tokens followed by the null pointer, each token being a non-empty string without
  any of the five delimiter characters, so that the entry right behind the last token
  is the null pointer; the state of the process is unchanged. And \<^verbatim>\<open>csh_split_line\<close>
  does return a vector when every allocation succeeds and the line is short enough for
  the \<^verbatim>\<open>int\<close> counters not to overflow.
\<close>

theorem split_line_token_vector:
  "(csh_split_line os line w = Returns tv w' \<longrightarrow>
      w' = w \<and>
      (\<exists>toks. tv = map Some toks @ [None]
         \<and> (\<forall>t\<in>set toks. t \<noteq> [] \<and> (\<forall>c\<in>set t. c \<notin> set CSH_TOK_DELIM))))
   \<and> ((\<forall>n. alloc_ok os n) \<and> int (length line) \<le> INT_MAX - CSH_TOK_BUFSIZE
      \<longrightarrow> (\<exists>tv. csh_split_line os line w = Returns tv w))"
proof (rule conjI)
  show "csh_split_line os line w = Returns tv w' \<longrightarrow>
      w' = w \<and>
      (\<exists>toks. tv = map Some toks @ [None]
         \<and> (\<forall>t\<in>set toks. t \<noteq> [] \<and> (\<forall>c\<in>set t. c \<notin> set CSH_TOK_DELIM)))"
    by (rule impI) (rule split_line_result)
  show "(\<forall>n. alloc_ok os n) \<and> int (length line) \<le> INT_MAX - CSH_TOK_BUFSIZE
      \<longrightarrow> (\<exists>tv. csh_split_line os line w = Returns tv w)"
    by (simp add: split_line_total)
qed

theorem split_line_token_vector_witness:
  "csh_split_line example_os ''ls -la /tmp'' example_world =
        Returns [Some ''ls'', Some ''-la'', Some ''/tmp'', None] example_world
   \<and> (\<exists>toks. [Some ''ls'', Some ''-la'', Some ''/tmp'', None] = map Some toks @ [None]
         \<and> (\<forall>t\<in>set toks. t \<noteq> [] \<and> (\<forall>c\<in>set t. c \<notin> set CSH_TOK_DELIM)))
   \<and> (\<forall>n. alloc_ok example_os n)
   \<and> int (length ''ls -la /tmp'') \<le> INT_MAX - CSH_TOK_BUFSIZE
   \<and> (\<exists>tv. csh_split_line example_os ''ls -la /tmp'' example_world = Returns tv example_world)"
proof -
  note t = split_line_token_vector [of example_os "''ls -la /tmp''" example_world
      "[Some ''ls'', Some ''-la'', Some ''/tmp'', None]" example_world]
  have a: "\<forall>n. alloc_ok example_os n"
    by (simp add: example_os_def)
  have l: "int (length ''ls -la /tmp'') \<le> INT_MAX - CSH_TOK_BUFSIZE"
    by (simp add: INT_MAX_def CSH_TOK_BUFSIZE_def)
  have "example_world = example_world \<and>
      (\<exists>toks. [Some ''ls'', Some ''-la'', Some ''/tmp'', None] = map Some toks @ [None]
         \<and> (\<forall>t\<in>set toks. t \<noteq> [] \<and> (\<forall>c\<in>set t. c \<notin> set CSH_TOK_DELIM)))"
    using conjunct1 [OF t] split_line_example by (rule mp)
  then have p: "\<exists>toks. [Some ''ls'', Some ''-la'', Some ''/tmp'', None] = map Some toks @ [None]
         \<and> (\<forall>t\<in>set toks. t \<noteq> [] \<and> (\<forall>c\<in>set t. c \<notin> set CSH_TOK_DELIM))"
    by (rule conjunct2)
  have e: "\<exists>tv. csh_split_line example_os ''ls -la /tmp'' example_world = Returns tv example_world"
    using conjunct2 [OF t] conjI [OF a l] by (rule mp)
  show ?thesis
    by (intro conjI split_line_example p a l e)
qed

section \<open>Properties of reading a line\<close>

lemma read_loop_eof:
  "csh_read_line_loop os buffer position bufsize (w\<lparr>stdin := []\<rparr>) =
     Exits EXIT_SUCCESS (w\<lparr>stdin := []\<rparr>)"
  by (subst csh_read_line_loop.simps) simp

lemma read_loop_char:
  "csh_read_line_loop os buffer position bufsize (w\<lparr>stdin := c # rest\<rparr>) =
     (if c = NL then Returns (cstring buffer) (w\<lparr>stdin := rest\<rparr>)
      else if position + 1 \<ge> bufsize then
        (if INT_MAX < bufsize + CSH_RL_BUFSIZE then Undef
         else if alloc_ok os (nat (bufsize + CSH_RL_BUFSIZE))
         then csh_read_line_loop os (buffer @ [c]) (position + 1) (bufsize + CSH_RL_BUFSIZE)
                (w\<lparr>stdin := rest\<rparr>)
         else Exits EXIT_FAILURE
                (fprintf_stderr (''lsh: allocation error'' @ [NL]) (w\<lparr>stdin := rest\<rparr>)))
      else csh_read_line_loop os (buffer @ [c]) (position + 1) bufsize (w\<lparr>stdin := rest\<rparr>))"
  by (subst csh_read_line_loop.simps) (simp add: Let_def)

text \<open>Without a newline in the input, the loop does not return a line.\<close>

lemma read_loop_needs_newline:
  "NL \<notin> set (stdin w) \<Longrightarrow> csh_read_line_loop os buffer position bufsize w \<noteq> Returns line w'"
proof (induction os buffer position bufsize w rule: csh_read_line_loop.induct)
  case (1 os buffer position bufsize w)
  show ?case
  proof (cases "stdin w")
    case Nil
    then show ?thesis
      by (subst csh_read_line_loop.simps) simp
  next
    case (Cons c rest)
    with "1.prems" have c: "c \<noteq> NL" and rest: "NL \<notin> set rest"
      by auto
    have w1: "NL \<notin> set (stdin (w\<lparr>stdin := rest\<rparr>))"
      using rest by simp
    show ?thesis
    proof (cases "position + 1 \<ge> bufsize")
      case True
      show ?thesis
      proof (cases "\<not> INT_MAX < bufsize + CSH_RL_BUFSIZE \<and> alloc_ok os (nat (bufsize + CSH_RL_BUFSIZE))")
        case yes: True
        then have no: "\<not> INT_MAX < bufsize + CSH_RL_BUFSIZE"
          and al: "alloc_ok os (nat (bufsize + CSH_RL_BUFSIZE))"
          by simp_all
        from "1.IH"(1) [OF Cons refl c refl refl True no al w1]
        show ?thesis
          using Cons c True no al by (subst csh_read_line_loop.simps) (simp add: Let_def)
      next
        case False
        then show ?thesis
          using Cons c True by (subst csh_read_line_loop.simps) (auto simp: Let_def)
      qed
    next
      case False
      from "1.IH"(2) [OF Cons refl c refl refl False w1]
      show ?thesis
        using Cons c False by (subst csh_read_line_loop.simps) (simp add: Let_def)
    qed
  qed
qed

lemma read_line_needs_newline:
  "NL \<notin> set (stdin w) \<Longrightarrow> csh_read_line os w \<noteq> Returns line w'"
  by (simp add: csh_read_line_def Let_def read_loop_needs_newline)

lemma read_line_complete_line:
  "csh_read_line example_os (example_world\<lparr>stdin := ''ls'' @ [NL] @ ''abc''\<rparr>) =
     Returns ''ls'' (example_world\<lparr>stdin := ''abc''\<rparr>)"
proof -
  have a: "alloc_ok example_os n" for n
    by (simp add: example_os_def)
  show ?thesis
    by (simp add: csh_read_line_def Let_def a read_loop_char read_loop_eof NL_def
        CSH_RL_BUFSIZE_def cstring_def)
qed

text \<open>
  C1. The specification says that a partial line (some characters, then the end of the
  stream with no newline) is still returned by the line reader. \<^verbatim>\<open>csh_read_line\<close> as
  \<^verbatim>\<open>main.c\<close> compiles it does not do so: on the input \<^verbatim>\<open>abc\<close> followed by the end of
  the stream it calls \<^verbatim>\<open>exit(EXIT_SUCCESS)\<close> when \<^verbatim>\<open>getchar\<close> gives \<^verbatim>\<open>EOF\<close>, and the
  three characters already stored are lost (by \<open>read_line_needs_newline\<close> it never
  returns a line that no newline ends). The other branch of the same function, under
  \<^verbatim>\<open>CSH_USE_STD_GETLINE\<close>, returns the line \<^verbatim>\<open>abc\<close> on the same input.
\<close>

theorem read_line_drops_partial_line:
  "csh_read_line example_os (example_world\<lparr>stdin := ''abc''\<rparr>) =
     Exits EXIT_SUCCESS (example_world\<lparr>stdin := []\<rparr>)
   \<and> csh_read_line_getline example_os (example_world\<lparr>stdin := ''abc''\<rparr>) =
     Returns ''abc'' (example_world\<lparr>stdin := []\<rparr>)"
proof (rule conjI)
  have a: "alloc_ok example_os n" for n
    by (simp add: example_os_def)
  show "csh_read_line example_os (example_world\<lparr>stdin := ''abc''\<rparr>) =
     Exits EXIT_SUCCESS (example_world\<lparr>stdin := []\<rparr>)"
    by (simp add: csh_read_line_def Let_def a read_loop_char read_loop_eof NL_def
        CSH_RL_BUFSIZE_def)
  show "csh_read_line_getline example_os (example_world\<lparr>stdin := ''abc''\<rparr>) =
     Returns ''abc'' (example_world\<lparr>stdin := []\<rparr>)"
    by (simp add: csh_read_line_getline_def getline_def Let_def a NL_def cstring_def)
qed

end
